theory Spec2Isabelle
  imports Main "HOL-Library.Sublist"
begin

section \<open>The store: the two tables of \<^verbatim>\<open>webscraper.db\<close>\<close>

text \<open>
  \<^verbatim>\<open>create_database\<close> declares two tables. A row of \<^verbatim>\<open>urls\<close> is
  \<^verbatim>\<open>(id INTEGER PRIMARY KEY AUTOINCREMENT, url TEXT NOT NULL, selector TEXT NOT NULL)\<close>,
  a row of \<^verbatim>\<open>results\<close> is
  \<^verbatim>\<open>(id INTEGER PRIMARY KEY AUTOINCREMENT, url_id INTEGER, result TEXT,
  timestamp DATETIME DEFAULT CURRENT_TIMESTAMP)\<close>.
  A table is the list of its rows in the order a scan of the table returns them
  (ascending rowid); the program never deletes or updates a row. The timestamp is
  the store's clock reading in whole seconds, the resolution of
  \<^verbatim>\<open>CURRENT_TIMESTAMP\<close>.
\<close>

record url_row =
  urls_id :: nat
  urls_url :: string
  urls_selector :: string

record result_row =
  results_id :: nat
  results_url_id :: nat
  results_result :: string
  results_timestamp :: nat

record database =
  urls :: "url_row list"
  results :: "result_row list"
  urls_seq :: nat
  results_seq :: nat

text \<open>
  \<^verbatim>\<open>AUTOINCREMENT\<close>: the new rowid is one more than the largest rowid the
  table has ever held, which SQLite keeps in \<^verbatim>\<open>sqlite_sequence\<close>
  (the fields \<open>urls_seq\<close> and \<open>results_seq\<close>).
\<close>

definition autoincrement :: "nat \<Rightarrow> nat list \<Rightarrow> nat" where
  "autoincrement seq ids = Suc (fold max ids seq)"

definition empty_database :: database where
  "empty_database = \<lparr>urls = [], results = [], urls_seq = 0, results_seq = 0\<rparr>"

text \<open>\<^verbatim>\<open>INSERT INTO urls (url, selector) VALUES (?, ?)\<close>\<close>

definition insert_url :: "database \<Rightarrow> string \<Rightarrow> string \<Rightarrow> database" where
  "insert_url d url selector =
     (let i = autoincrement (urls_seq d) (map urls_id (urls d))
      in d\<lparr>urls := urls d @ [\<lparr>urls_id = i, urls_url = url, urls_selector = selector\<rparr>],
            urls_seq := i\<rparr>)"

text \<open>
  \<^verbatim>\<open>INSERT INTO results (url_id, result) VALUES (?, ?)\<close>; the timestamp column
  takes its default, the clock reading \<open>now\<close> at the insert.
\<close>

definition insert_result :: "nat \<Rightarrow> database \<Rightarrow> nat \<Rightarrow> string \<Rightarrow> database" where
  "insert_result now d url_id result =
     (let i = autoincrement (results_seq d) (map results_id (results d))
      in d\<lparr>results := results d @
              [\<lparr>results_id = i, results_url_id = url_id, results_result = result,
                results_timestamp = now\<rparr>],
            results_seq := i\<rparr>)"

text \<open>
  \<^verbatim>\<open>SELECT id FROM urls WHERE url=?\<close> followed by \<^verbatim>\<open>fetchone()\<close>: the id of the
  first row in scan order whose url equals the parameter, or Python's \<^verbatim>\<open>None\<close>.
\<close>

definition select_id :: "url_row list \<Rightarrow> string \<Rightarrow> nat option" where
  "select_id rows url = map_option urls_id (find (\<lambda>r. urls_url r = url) rows)"

text \<open>\<^verbatim>\<open>SELECT url, selector FROM urls\<close> followed by \<^verbatim>\<open>fetchall()\<close>\<close>

definition select_url_selector :: "database \<Rightarrow> (string \<times> string) list" where
  "select_url_selector d = map (\<lambda>r. (urls_url r, urls_selector r)) (urls d)"

text \<open>
  \<^verbatim>\<open>CREATE TABLE IF NOT EXISTS\<close>: a database file that is not there yet
  (\<open>None\<close>) is created with both tables empty; an existing one is left as it is.
\<close>

definition create_database :: "database option \<Rightarrow> database" where
  "create_database f = (case f of None \<Rightarrow> empty_database | Some d \<Rightarrow> d)"

section \<open>The libraries the scraper calls\<close>

text \<open>
  A value the tree view returns for a cell, and the program then passes on: a
  string, or an integer.
\<close>

datatype py_value = PyStr string | PyInt int

text \<open>
  An element \<^verbatim>\<open>select\<close> returns, as far as \<^verbatim>\<open>scrape_url\<close> reads it: the value
  of its \<^verbatim>\<open>.text\<close> attribute, which \<^verbatim>\<open>BeautifulSoup\<close> computes (the text content
  of the element, concatenated).
\<close>

datatype tag = Tag string

fun tag_text :: "tag \<Rightarrow> string" where
  "tag_text (Tag t) = t"

text \<open>
  \<^verbatim>\<open>str.strip()\<close> with no argument removes the leading and the trailing
  whitespace. A character is a code point below 256; the whitespace among them
  (\<^verbatim>\<open>str.isspace\<close>) is 0x09..0x0D, 0x1C..0x20, 0x85 and 0xA0.
\<close>

definition isspace :: "char \<Rightarrow> bool" where
  "isspace c = (of_char c \<in> {9, 10, 11, 12, 13, 28, 29, 30, 31, 32, 133, 160 :: nat})"

definition strip :: "string \<Rightarrow> string" where
  "strip s = rev (dropWhile isspace (rev (dropWhile isspace s)))"

text \<open>
  \<^verbatim>\<open>str(n)\<close> of an integer, which is also the text SQLite converts an integer
  to: the decimal digits, after a minus sign when it is negative.
\<close>

function decimal :: "nat \<Rightarrow> string" where
  "decimal n =
     (if n < 10 then [''0123456789'' ! n]
      else decimal (n div 10) @ [''0123456789'' ! (n mod 10)])"
  by pat_completeness auto
termination
  by (relation "measure id") auto

declare decimal.simps [simp del]

definition str_int :: "int \<Rightarrow> string" where
  "str_int i = (if i < 0 then CHR ''-'' # decimal (nat (- i)) else decimal (nat i))"

definition py_str :: "py_value \<Rightarrow> string" where
  "py_str v = (case v of PyStr s \<Rightarrow> s | PyInt i \<Rightarrow> str_int i)"

text \<open>
  What the program does not contain is a parameter of the model:
  \<^item> \<open>py_int s\<close> is the outcome of Python's \<^verbatim>\<open>int(s)\<close> on a string: the integer, or
    \<open>None\<close> when it raises \<^verbatim>\<open>ValueError\<close>;
  \<^item> \<open>requests_get url\<close> is the outcome of \<^verbatim>\<open>requests.get(url, timeout=10)\<close>:
    \<open>Inr\<close> the text of the response, or \<open>Inl\<close> the message \<^verbatim>\<open>str(e)\<close> of the
    exception raised (timeout, connection error, malformed URL, an argument that
    is no string);
  \<^item> \<open>soup_select markup selector\<close> is the outcome of
    \<^verbatim>\<open>BeautifulSoup(markup, 'html.parser').select(selector)\<close>: \<open>Inr\<close> the matched
    elements in the order the library returns them, or \<open>Inl\<close> the message of the
    exception raised (an invalid selector);
  \<^item> \<open>sqlite3_works n\<close> tells whether the \<open>n\<close>-th operation a run asks of the
    store (counted from 0: opening a connection, preparing or stepping a
    statement, fetching a row, committing) succeeds; when it does not, an
    exception of \<^verbatim>\<open>sqlite3\<close> is raised;
  \<^item> \<open>current_timestamp n\<close> is the store's clock, in whole seconds, at the \<open>n\<close>-th
    operation of the run.
\<close>

record env =
  py_int :: "string \<Rightarrow> int option"
  requests_get :: "py_value \<Rightarrow> string + string"
  soup_select :: "string \<Rightarrow> py_value \<Rightarrow> string + tag list"
  sqlite3_works :: "nat \<Rightarrow> bool"
  current_timestamp :: "nat \<Rightarrow> nat"

text \<open>
  \<^verbatim>\<open>self.url_list.item(item)['values']\<close>: the tree view returns each value of a
  row through \<^verbatim>\<open>ttk._convert_stringval\<close>, which tries \<^verbatim>\<open>int\<close> on the string and
  keeps the string only when that raises.
\<close>

definition convert_stringval :: "env \<Rightarrow> string \<Rightarrow> py_value" where
  "convert_stringval e s = (case py_int e s of Some i \<Rightarrow> PyInt i | None \<Rightarrow> PyStr s)"

text \<open>
  Binding the parameter of \<^verbatim>\<open>SELECT id FROM urls WHERE url=?\<close>. An integer that
  does not fit 64 bits cannot be bound (\<^verbatim>\<open>OverflowError\<close>, here \<open>None\<close>). The column
  has text affinity, so a bound integer is compared as its decimal text.
\<close>

definition bind_parameter :: "py_value \<Rightarrow> string option" where
  "bind_parameter v =
     (case v of
        PyStr s \<Rightarrow> Some s
      | PyInt i \<Rightarrow> if - (2 ^ 63) \<le> i \<and> i < 2 ^ 63 then Some (str_int i) else None)"

section \<open>The application state\<close>

text \<open>
  The fields of \<^verbatim>\<open>WebScraperGUI\<close> the operations read and write: the two entry
  widgets, the rows of the \<^verbatim>\<open>url_list\<close> tree view (each the pair of strings it was
  inserted with), the content of the \<^verbatim>\<open>results_text\<close> widget, the database file,
  and the error dialogs shown so far (title and message of each
  \<^verbatim>\<open>messagebox.showerror\<close>).
\<close>

record gui =
  db :: database
  url_entry :: string
  selector_entry :: string
  url_list :: "(string \<times> string) list"
  results_text :: string
  messagebox :: "(string \<times> string) list"

text \<open>
  The exceptions that can leave \<^verbatim>\<open>scrape_thread\<close>: \<^verbatim>\<open>TypeError\<close> from indexing
  \<^verbatim>\<open>None\<close>, \<^verbatim>\<open>OverflowError\<close> from binding, and the exceptions of \<^verbatim>\<open>sqlite3\<close>
  (\<^verbatim>\<open>OperationalError\<close> and the other subclasses of \<^verbatim>\<open>sqlite3.Error\<close>).
\<close>

datatype py_error = TypeError | OverflowError | Sqlite3Error

section \<open>The operations\<close>

definition add_url :: "gui \<Rightarrow> gui" where
  "add_url st =
     (let url = url_entry st; selector = selector_entry st
      in if url \<noteq> [] \<and> selector \<noteq> []
         then st\<lparr>db := insert_url (db st) url selector,
                 url_list := url_list st @ [(url, selector)],
                 url_entry := [],
                 selector_entry := []\<rparr>
         else st\<lparr>messagebox := messagebox st @
                 [(''Error'', ''Por favor ingrese URL y selector CSS'')]\<rparr>)"

definition load_urls :: "gui \<Rightarrow> gui" where
  "load_urls st = st\<lparr>url_list := url_list st @ select_url_selector (db st)\<rparr>"

text \<open>
  \<^verbatim>\<open>__init__\<close>: the database is created if it is missing, the widgets start
  empty, and the stored urls are loaded into the tree view.
\<close>

definition init :: "database option \<Rightarrow> gui" where
  "init f = load_urls \<lparr>db = create_database f, url_entry = [], selector_entry = [],
                       url_list = [], results_text = [], messagebox = []\<rparr>"

definition scrape_url :: "env \<Rightarrow> py_value \<Rightarrow> py_value \<Rightarrow> string list" where
  "scrape_url e url selector =
     (case requests_get e url of
        Inl msg \<Rightarrow> [''Error: '' @ msg]
      | Inr markup \<Rightarrow>
          (case soup_select e markup selector of
             Inl msg \<Rightarrow> [''Error: '' @ msg]
           | Inr matched \<Rightarrow> map (\<lambda>m. strip (tag_text m)) matched))"

definition result_entry :: "string \<Rightarrow> string \<Rightarrow> string" where
  "result_entry url result =
     ''URL: '' @ url @ [CHR 0x0A] @ ''Resultado: '' @ result @ [CHR 0x0A, CHR 0x0A]"

text \<open>
  The inner loop of \<^verbatim>\<open>scrape_thread\<close>, inside the transaction of one tree view
  row: per fragment one insert into \<^verbatim>\<open>results\<close> and then one entry in the results
  widget. \<open>k\<close> counts the operations asked of the store, \<open>d\<close> is the database as
  the open transaction sees it and \<open>w\<close> the content of the widget. The result
  tells whether every insert succeeded; a failed insert raises before its entry
  is written.
\<close>

fun insert_results ::
  "env \<Rightarrow> nat \<Rightarrow> nat \<Rightarrow> string \<Rightarrow> string list \<Rightarrow> database \<times> string \<Rightarrow>
   (database \<times> string) \<times> nat \<times> bool" where
  "insert_results e k url_id url [] (d, w) = ((d, w), k, True)"
| "insert_results e k url_id url (result # rest) (d, w) =
     (if sqlite3_works e k
      then insert_results e (Suc k) url_id url rest
             (insert_result (current_timestamp e k) d url_id result,
              w @ result_entry url result)
      else ((d, w), Suc k, False))"

text \<open>
  The body of the outer loop for one row of the tree view. The values are read
  back from the tree view, the page is fetched and extracted, and then, on a new
  connection: the id is looked up and indexed without a check, the fragments are
  inserted, and the transaction is committed. An exception that nothing catches
  ends the thread; \<^verbatim>\<open>DatabaseConnection.__exit__\<close> closes the connection, which
  discards the inserts that were not committed, while the entries already
  written to the widget stay. The calls on the widgets themselves are taken to
  succeed. The function returns the state reached, the count of store
  operations, and the exception if there was one.
\<close>

definition scrape_item ::
  "env \<Rightarrow> nat \<Rightarrow> string \<times> string \<Rightarrow> gui \<Rightarrow> gui \<times> nat \<times> py_error option" where
  "scrape_item e k item st =
     (let url = convert_stringval e (fst item);
          selector = convert_stringval e (snd item);
          fragments = scrape_url e url selector
      in if \<not> sqlite3_works e k then (st, k + 1, Some Sqlite3Error)
         else if \<not> sqlite3_works e (k + 1) then (st, k + 2, Some Sqlite3Error)
         else (case bind_parameter url of
                 None \<Rightarrow> (st, k + 2, Some OverflowError)
               | Some key \<Rightarrow>
                   if \<not> sqlite3_works e (k + 2) then (st, k + 3, Some Sqlite3Error)
                   else (case select_id (urls (db st)) key of
                           None \<Rightarrow> (st, k + 3, Some TypeError)
                         | Some url_id \<Rightarrow>
                             if \<not> sqlite3_works e (k + 3) then (st, k + 4, Some Sqlite3Error)
                             else (case insert_results e (k + 4) url_id (py_str url) fragments
                                          (db st, results_text st) of
                                     ((d, w), k', False) \<Rightarrow>
                                       (st\<lparr>results_text := w\<rparr>, k', Some Sqlite3Error)
                                   | ((d, w), k', True) \<Rightarrow>
                                       if \<not> sqlite3_works e k'
                                       then (st\<lparr>results_text := w\<rparr>, k' + 1, Some Sqlite3Error)
                                       else (st\<lparr>db := d, results_text := w\<rparr>, k' + 1, None)))))"

text \<open>
  The store operations of one row are, in this order: opening the connection
  (\<open>k\<close>), preparing the query (\<open>k + 1\<close>), stepping it after the parameter is bound
  (\<open>k + 2\<close>), fetching the row found (\<open>k + 3\<close>), one insert per fragment, and the
  commit.

  The outer loop of \<^verbatim>\<open>scrape_thread\<close> over the rows of the tree view.
\<close>

fun scrape_items ::
  "env \<Rightarrow> nat \<Rightarrow> (string \<times> string) list \<Rightarrow> gui \<Rightarrow> gui \<times> nat \<times> py_error option" where
  "scrape_items e k [] st = (st, k, None)"
| "scrape_items e k (item # items) st =
     (case scrape_item e k item st of
        (st', k', None) \<Rightarrow> scrape_items e k' items st'
      | (st', k', Some err) \<Rightarrow> (st', k', Some err))"

definition scrape_thread :: "env \<Rightarrow> gui \<Rightarrow> gui \<times> py_error option" where
  "scrape_thread e st =
     (case scrape_items e 0 (url_list st) (st\<lparr>results_text := []\<rparr>) of
        (st', k, err) \<Rightarrow> (st', err))"

text \<open>
  \<^verbatim>\<open>start_scraping\<close> starts threads and returns; the value here is the list of
  the threads it starts, each given by the function its target computes.
  \<open>joined\<close> is the state of the application once such a thread has ended: an
  exception that ended it stays in the thread and reaches no caller.
\<close>

type_synonym thread = "gui \<Rightarrow> gui \<times> py_error option"

definition start_scraping :: "env \<Rightarrow> gui \<Rightarrow> thread list" where
  "start_scraping e st = [scrape_thread e]"

definition joined :: "thread \<Rightarrow> gui \<Rightarrow> gui" where
  "joined t st = fst (t st)"

text \<open>
  The user's part of a registration: the two values are typed into the entry
  widgets and \<^verbatim>\<open>Agregar URL\<close> is pressed. \<open>accepted\<close> is the guard
  \<^verbatim>\<open>if url and selector\<close> of \<^verbatim>\<open>add_url\<close>: a Python string is true when it is
  not empty.
\<close>

definition submit :: "gui \<Rightarrow> string \<times> string \<Rightarrow> gui" where
  "submit st p = add_url (st\<lparr>url_entry := fst p, selector_entry := snd p\<rparr>)"

definition accepted :: "string \<times> string \<Rightarrow> bool" where
  "accepted p = (fst p \<noteq> [] \<and> snd p \<noteq> [])"

section \<open>Describing a run\<close>

text \<open>
  Functions the statements about a run are written with. \<open>resolves\<close> tells
  whether the id lookup for a row of the tree view finds a row of \<^verbatim>\<open>urls\<close>: the
  url read back from the tree view can be bound, and some row has its text as
  url. \<open>fragments_of\<close> are the fragments of a row, \<open>run_entries\<close> is what a
  complete run writes to the results widget, and \<open>high_water\<close> is the largest id
  the \<^verbatim>\<open>results\<close> table has held.
\<close>

definition resolves :: "env \<Rightarrow> url_row list \<Rightarrow> string \<times> string \<Rightarrow> bool" where
  "resolves e rows item =
     (case bind_parameter (convert_stringval e (fst item)) of
        None \<Rightarrow> False
      | Some key \<Rightarrow> select_id rows key \<noteq> None)"

definition fragments_of :: "env \<Rightarrow> string \<times> string \<Rightarrow> string list" where
  "fragments_of e item =
     scrape_url e (convert_stringval e (fst item)) (convert_stringval e (snd item))"

definition item_entries :: "env \<Rightarrow> string \<times> string \<Rightarrow> string" where
  "item_entries e item =
     concat (map (result_entry (py_str (convert_stringval e (fst item)))) (fragments_of e item))"

definition run_entries :: "env \<Rightarrow> (string \<times> string) list \<Rightarrow> string" where
  "run_entries e items = concat (map (item_entries e) items)"

definition high_water :: "database \<Rightarrow> nat" where
  "high_water d = fold max (map results_id (results d)) (results_seq d)"

definition item_records :: "env \<Rightarrow> url_row list \<Rightarrow> string \<times> string \<Rightarrow> (nat \<times> string) list" where
  "item_records e rows item =
     (case bind_parameter (convert_stringval e (fst item)) of
        None \<Rightarrow> []
      | Some key \<Rightarrow>
          (case select_id rows key of
             None \<Rightarrow> []
           | Some url_id \<Rightarrow> map (Pair url_id) (fragments_of e item)))"

definition run_records :: "env \<Rightarrow> url_row list \<Rightarrow> (string \<times> string) list \<Rightarrow> (nat \<times> string) list" where
  "run_records e rows items = concat (map (item_records e rows) items)"

text \<open>
  \<open>appended e k k' d d' ps\<close>: the database \<open>d'\<close> is \<open>d\<close> with one new row of
  \<^verbatim>\<open>results\<close> per (url_id, result) pair of \<open>ps\<close>, in this order, appended; the new
  rows have ascending ids above every id of \<open>d\<close>, and each carries the clock
  reading of a store operation between \<open>k\<close> and \<open>k'\<close>, later rows of later
  operations.
\<close>

definition appended ::
  "env \<Rightarrow> nat \<Rightarrow> nat \<Rightarrow> database \<Rightarrow> database \<Rightarrow> (nat \<times> string) list \<Rightarrow> bool" where
  "appended e k k' d d' ps \<longleftrightarrow>
     (\<exists>new ns.
        results d' = results d @ new \<and> urls d' = urls d
        \<and> map (\<lambda>r. (results_url_id r, results_result r)) new = ps
        \<and> map results_timestamp new = map (current_timestamp e) ns
        \<and> sorted_wrt (<) ns \<and> (\<forall>n \<in> set ns. k \<le> n \<and> n < k')
        \<and> sorted_wrt (<) (map results_id new)
        \<and> (\<forall>r \<in> set new. high_water d < results_id r)
        \<and> high_water d \<le> high_water d')"

lemmas eval_defs = scrape_thread_def scrape_item_def scrape_url_def insert_result_def
  autoincrement_def select_id_def submit_def add_url_def init_def load_urls_def
  create_database_def empty_database_def select_url_selector_def insert_url_def Let_def
  joined_def start_scraping_def strip_def isspace_def result_entry_def convert_stringval_def
  bind_parameter_def py_str_def str_int_def decimal.simps fragments_of_def item_entries_def
  run_entries_def resolves_def

section \<open>Extraction\<close>






text \<open>
  C8. When the fetch returns a document and the selector matches no element of
  it, the extraction returns the empty list; nothing is raised and no error
  fragment is produced.
\<close>

theorem extract_no_match:
  "requests_get e url = Inr markup \<Longrightarrow> soup_select e markup selector = Inr [] \<Longrightarrow>
   scrape_url e url selector = []"
  by (simp add: scrape_url_def)

theorem extract_no_match_witness:
  "scrape_url
     \<lparr>py_int = (\<lambda>s. None),
      requests_get = (\<lambda>u. Inr ''<div class=item>A</div><div class=item> B </div>''),
      soup_select = (\<lambda>m s. Inr []),
      sqlite3_works = (\<lambda>n. True), current_timestamp = (\<lambda>n. 0)\<rparr>
     (PyStr ''http://example.org'') (PyStr ''.missing'') = []"
  using extract_no_match [of
     "\<lparr>py_int = (\<lambda>s. None),
      requests_get = (\<lambda>u. Inr ''<div class=item>A</div><div class=item> B </div>''),
      soup_select = (\<lambda>m s. Inr []),
      sqlite3_works = (\<lambda>n. True), current_timestamp = (\<lambda>n. 0)\<rparr>"
     "PyStr ''http://example.org''" "''<div class=item>A</div><div class=item> B </div>''"
     "PyStr ''.missing''"]
  by simp

section \<open>The registry\<close>

lemma autoincrement_greater: "i \<in> set ids \<Longrightarrow> i < autoincrement seq ids"
proof -
  assume "i \<in> set ids"
  then have "i \<le> Max (set (seq # ids))" by simp
  then show ?thesis by (simp only: autoincrement_def Max.set_eq_fold less_Suc_eq_le)
qed

lemma insert_url_sorted:
  "sorted_wrt (<) (map urls_id (urls d)) \<Longrightarrow>
   sorted_wrt (<) (map urls_id (urls (insert_url d url selector)))"
  by (auto simp: insert_url_def Let_def sorted_wrt_append autoincrement_greater)

lemma submit_db:
  "select_url_selector (db (submit st p)) =
     select_url_selector (db st) @ (if accepted p then [p] else [])"
  by (simp add: submit_def add_url_def accepted_def select_url_selector_def insert_url_def Let_def)

lemma submit_url_list:
  "url_list (submit st p) = url_list st @ (if accepted p then [p] else [])"
  by (simp add: submit_def add_url_def accepted_def Let_def)

lemma submit_sorted:
  "sorted_wrt (<) (map urls_id (urls (db st))) \<Longrightarrow>
   sorted_wrt (<) (map urls_id (urls (db (submit st p))))"
  by (simp add: submit_def add_url_def Let_def insert_url_sorted)

lemma submits_db:
  "select_url_selector (db (foldl submit st inputs)) =
     select_url_selector (db st) @ filter accepted inputs"
  by (induction inputs rule: rev_induct) (simp_all add: submit_db)

lemma submits_url_list:
  "url_list (foldl submit st inputs) = url_list st @ filter accepted inputs"
  by (induction inputs rule: rev_induct) (simp_all add: submit_url_list)

lemma submits_sorted:
  "sorted_wrt (<) (map urls_id (urls (db st))) \<Longrightarrow>
   sorted_wrt (<) (map urls_id (urls (db (foldl submit st inputs))))"
  by (induction inputs rule: rev_induct) (simp_all add: submit_sorted)

lemma init_url_list: "url_list (init f) = select_url_selector (create_database f)"
  by (simp add: init_def load_urls_def)

lemma init_db: "db (init f) = create_database f"
  by (simp add: init_def load_urls_def)

text \<open>
  C4, as the code has it. A registration whose url or selector is the empty
  string is rejected: the error dialog is shown, and neither the database nor the
  tree view changes. A registration whose url and selector are both non-empty is
  stored as a new row, without a dialog; whitespace-only values are non-empty.
\<close>

theorem add_url_validation:
  "(url_entry st = [] \<or> selector_entry st = [] \<longrightarrow>
      db (add_url st) = db st \<and> url_list (add_url st) = url_list st \<and>
      messagebox (add_url st) =
        messagebox st @ [(''Error'', ''Por favor ingrese URL y selector CSS'')])
   \<and> (url_entry st \<noteq> [] \<and> selector_entry st \<noteq> [] \<longrightarrow>
      messagebox (add_url st) = messagebox st \<and>
      select_url_selector (db (add_url st)) =
        select_url_selector (db st) @ [(url_entry st, selector_entry st)])"
  by (simp add: add_url_def Let_def select_url_selector_def insert_url_def)

theorem add_url_validation_witness:
  "db (submit (init None) ([], ''x'')) = db (init None)
   \<and> db (submit (init None) (''x'', [])) = db (init None)
   \<and> messagebox (submit (init None) ([], ''x'')) =
       [(''Error'', ''Por favor ingrese URL y selector CSS'')]
   \<and> messagebox (submit (init None) (''x'', [])) =
       [(''Error'', ''Por favor ingrese URL y selector CSS'')]
   \<and> select_url_selector (db (submit (init None) (''x'', ''y''))) = [(''x'', ''y'')]"
  using add_url_validation [of "init None\<lparr>url_entry := [], selector_entry := ''x''\<rparr>"]
    add_url_validation [of "init None\<lparr>url_entry := ''x'', selector_entry := []\<rparr>"]
    add_url_validation [of "init None\<lparr>url_entry := ''x'', selector_entry := ''y''\<rparr>"]
  by (simp add: submit_def init_def load_urls_def create_database_def empty_database_def
      select_url_selector_def)

text \<open>
  C4 as stated fails for a blank url: the url \<open>'' ''\<close> is whitespace only (it strips
  to the empty string), and its registration is stored as row 1 with no dialog.
\<close>

theorem add_url_blank_counterexample:
  "urls (db (submit (init None) ('' '', ''x''))) =
     [\<lparr>urls_id = 1, urls_url = '' '', urls_selector = ''x''\<rparr>]
   \<and> messagebox (submit (init None) ('' '', ''x'')) = []
   \<and> strip '' '' = []"
  by (simp add: submit_def add_url_def init_def load_urls_def create_database_def
      empty_database_def select_url_selector_def insert_url_def autoincrement_def Let_def
      strip_def isspace_def)

text \<open>
  C7. After any sequence of registrations on an application started on any
  database file, listing the jobs (\<^verbatim>\<open>load_urls\<close> into an empty tree view, as a
  restart does) returns the jobs the file held followed by every registration
  that was accepted, in the order they were made; the tree view of the running
  application holds the same list. The rows stay in ascending id order, so the
  order of the list is the order of creation.
\<close>

theorem list_creation_order:
  "url_list (init (Some (db (foldl submit (init f) inputs)))) =
     select_url_selector (create_database f) @ filter accepted inputs
   \<and> url_list (foldl submit (init f) inputs) =
     select_url_selector (create_database f) @ filter accepted inputs
   \<and> (sorted_wrt (<) (map urls_id (urls (create_database f))) \<longrightarrow>
      sorted_wrt (<) (map urls_id (urls (db (foldl submit (init f) inputs)))))"
proof -
  have "url_list (init (Some (db (foldl submit (init f) inputs)))) =
        select_url_selector (db (foldl submit (init f) inputs))"
    by (simp add: init_url_list create_database_def)
  then show ?thesis
    by (simp add: submits_db submits_url_list submits_sorted init_db init_url_list)
qed

theorem list_creation_order_witness:
  "url_list (init (Some (db (foldl submit (init None)
      [(''http://a'', ''.x''), ([], ''.y''), (''http://b'', ''p''), (''http://a'', ''.x'')])))) =
     [(''http://a'', ''.x''), (''http://b'', ''p''), (''http://a'', ''.x'')]
   \<and> map urls_id (urls (db (foldl submit (init None)
      [(''http://a'', ''.x''), ([], ''.y''), (''http://b'', ''p''), (''http://a'', ''.x'')]))) =
     [1, 2, 3]"
  using list_creation_order [of None
      "[(''http://a'', ''.x''), ([], ''.y''), (''http://b'', ''p''), (''http://a'', ''.x'')]"]
  by (simp add: accepted_def create_database_def empty_database_def select_url_selector_def
      submit_def add_url_def init_def load_urls_def insert_url_def autoincrement_def Let_def)

section \<open>The store during a run\<close>

text \<open>
  Each insert into \<^verbatim>\<open>results\<close> takes the id after the largest one the table has
  held, so the rows appended carry ascending ids above all earlier ones, and
  nothing that was stored before is touched.
\<close>

lemma fold_max_absorb: "fold max xs a \<le> b \<Longrightarrow> fold max xs b = (b::nat)"
proof -
  assume le: "fold max xs a \<le> b"
  have "Max (set (a # xs)) \<le> b" using le by (simp only: Max.set_eq_fold)
  then have "\<forall>x\<in>set xs. x \<le> b" by simp
  then have "Max (set (b # xs)) = b" by (intro Max_eqI) auto
  then show ?thesis by (simp only: Max.set_eq_fold)
qed

lemma results_id_le_high_water: "r \<in> set (results d) \<Longrightarrow> results_id r \<le> high_water d"
proof -
  assume "r \<in> set (results d)"
  then have "results_id r \<in> set (results_seq d # map results_id (results d))" by simp
  then have "results_id r \<le> Max (set (results_seq d # map results_id (results d)))"
    by (intro Max_ge) simp_all
  then show ?thesis by (simp only: high_water_def Max.set_eq_fold)
qed

lemma autoincrement_results:
  "autoincrement (results_seq d) (map results_id (results d)) = Suc (high_water d)"
  by (simp add: autoincrement_def high_water_def)

lemma insert_result_results:
  "results (insert_result now d url_id result) =
     results d @ [\<lparr>results_id = Suc (high_water d), results_url_id = url_id,
                   results_result = result, results_timestamp = now\<rparr>]"
  by (simp add: insert_result_def Let_def autoincrement_results)

lemma insert_result_high_water:
  "high_water (insert_result now d url_id result) = Suc (high_water d)"
proof -
  have "fold max (map results_id (results d)) (Suc (high_water d)) = Suc (high_water d)"
    by (rule fold_max_absorb [of _ "results_seq d"]) (simp add: high_water_def)
  then show ?thesis
    by (simp add: insert_result_def Let_def autoincrement_results)
       (simp add: high_water_def)
qed

lemma insert_result_urls: "urls (insert_result now d url_id result) = urls d"
  by (simp add: insert_result_def Let_def)

lemma appended_refl: "appended e k k' d d []"
  unfolding appended_def
  by (intro exI [of _ "[]"]) simp

lemma appended_insert:
  "appended e k (Suc k) d (insert_result (current_timestamp e k) d url_id result)
     [(url_id, result)]"
  unfolding appended_def
  by (intro exI [of _ "[\<lparr>results_id = Suc (high_water d), results_url_id = url_id,
        results_result = result, results_timestamp = current_timestamp e k\<rparr>]"]
      exI [of _ "[k]"])
     (simp add: insert_result_results insert_result_high_water insert_result_urls)

lemma appended_trans:
  assumes a: "appended e k k1 d d1 ps" and b: "appended e k1 k2 d1 d2 qs"
    and le: "k \<le> k1" "k1 \<le> k2"
  shows "appended e k k2 d d2 (ps @ qs)"
proof -
  from a obtain new1 ns1 where 1:
    "results d1 = results d @ new1" "urls d1 = urls d"
    "map (\<lambda>r. (results_url_id r, results_result r)) new1 = ps"
    "map results_timestamp new1 = map (current_timestamp e) ns1"
    "sorted_wrt (<) ns1" "\<forall>n \<in> set ns1. k \<le> n \<and> n < k1"
    "sorted_wrt (<) (map results_id new1)"
    "\<forall>r \<in> set new1. high_water d < results_id r"
    "high_water d \<le> high_water d1"
    unfolding appended_def by blast
  from b obtain new2 ns2 where 2:
    "results d2 = results d1 @ new2" "urls d2 = urls d1"
    "map (\<lambda>r. (results_url_id r, results_result r)) new2 = qs"
    "map results_timestamp new2 = map (current_timestamp e) ns2"
    "sorted_wrt (<) ns2" "\<forall>n \<in> set ns2. k1 \<le> n \<and> n < k2"
    "sorted_wrt (<) (map results_id new2)"
    "\<forall>r \<in> set new2. high_water d1 < results_id r"
    "high_water d1 \<le> high_water d2"
    unfolding appended_def by blast
  have ns: "sorted_wrt (<) (ns1 @ ns2)"
    using 1(5,6) 2(5,6) by (fastforce simp: sorted_wrt_append)
  have "results_id r1 < results_id r2" if "r1 \<in> set new1" "r2 \<in> set new2" for r1 r2
  proof -
    have "r1 \<in> set (results d1)" using that(1) 1(1) by simp
    then have "results_id r1 \<le> high_water d1" by (rule results_id_le_high_water)
    then show ?thesis using 2(8) that(2) by fastforce
  qed
  then have ids: "sorted_wrt (<) (map results_id (new1 @ new2))"
    using 1(7) 2(7) by (simp add: sorted_wrt_append)
  have rng: "\<forall>n \<in> set (ns1 @ ns2). k \<le> n \<and> n < k2"
    using 1(6) 2(6) le by fastforce
  have hw: "\<forall>r \<in> set (new1 @ new2). high_water d < results_id r"
    using 1(8,9) 2(8) by fastforce
  have "results d2 = results d @ (new1 @ new2) \<and> urls d2 = urls d
        \<and> map (\<lambda>r. (results_url_id r, results_result r)) (new1 @ new2) = ps @ qs
        \<and> map results_timestamp (new1 @ new2) = map (current_timestamp e) (ns1 @ ns2)
        \<and> sorted_wrt (<) (ns1 @ ns2) \<and> (\<forall>n \<in> set (ns1 @ ns2). k \<le> n \<and> n < k2)
        \<and> sorted_wrt (<) (map results_id (new1 @ new2))
        \<and> (\<forall>r \<in> set (new1 @ new2). high_water d < results_id r)
        \<and> high_water d \<le> high_water d2"
    using 1 2 ns ids rng hw by simp
  then show ?thesis unfolding appended_def by blast
qed

lemma appended_widen: "appended e k k' d d' ps \<Longrightarrow> j \<le> k \<Longrightarrow> k' \<le> j' \<Longrightarrow> appended e j j' d d' ps"
  unfolding appended_def by fastforce


lemma appended_urls: "appended e k k' d d' ps \<Longrightarrow> urls d' = urls d"
  unfolding appended_def by auto

lemma appended_Nil: "appended e k k' d d' [] \<Longrightarrow> results d' = results d"
  unfolding appended_def by auto

text \<open>
  The inner loop. When every insert succeeds, each fragment is appended to the
  transaction's \<^verbatim>\<open>results\<close> and its entry to the widget; in any case the widget
  gains a prefix of the entries of the fragments.
\<close>

lemma insert_results_True:
  "insert_results e k url_id url fs (d, w) = ((d', w'), k', True) \<Longrightarrow>
   k' = k + length fs \<and> w' = w @ concat (map (result_entry url) fs)
   \<and> (\<forall>n. k \<le> n \<and> n < k' \<longrightarrow> sqlite3_works e n)
   \<and> appended e k k' d d' (map (Pair url_id) fs)"
proof (induction fs arbitrary: k d w)
  case Nil
  then show ?case by (auto simp: appended_refl)
next
  case (Cons f fs)
  have w: "sqlite3_works e k" using Cons.prems by (auto split: if_splits)
  let ?d = "insert_result (current_timestamp e k) d url_id f"
  have "insert_results e (Suc k) url_id url fs (?d, w @ result_entry url f) = ((d', w'), k', True)"
    using Cons.prems w by simp
  from Cons.IH [OF this] have ih:
    "k' = Suc k + length fs" "w' = (w @ result_entry url f) @ concat (map (result_entry url) fs)"
    "\<forall>n. Suc k \<le> n \<and> n < k' \<longrightarrow> sqlite3_works e n"
    "appended e (Suc k) k' ?d d' (map (Pair url_id) fs)"
    by blast+
  have "appended e k k' d d' ([(url_id, f)] @ map (Pair url_id) fs)"
    using appended_insert ih(4) by (rule appended_trans) (simp_all add: ih(1))
  moreover have "\<forall>n. k \<le> n \<and> n < k' \<longrightarrow> sqlite3_works e n"
    using ih(3) w by (metis Suc_leI le_neq_implies_less)
  ultimately show ?case using ih(1,2) by simp
qed

lemma insert_results_works:
  "\<forall>n. k \<le> n \<and> n < k + length fs \<longrightarrow> sqlite3_works e n \<Longrightarrow>
   snd (snd (insert_results e k url_id url fs (d, w)))"
proof (induction fs arbitrary: k d w)
  case Nil
  show ?case by simp
next
  case (Cons f fs)
  have "sqlite3_works e k" using Cons.prems by simp
  moreover have "\<forall>n. Suc k \<le> n \<and> n < Suc k + length fs \<longrightarrow> sqlite3_works e n"
    using Cons.prems by simp
  ultimately show ?case using Cons.IH by simp
qed


text \<open>
  The body of the outer loop. When it raises, the database is as it was before
  the row: what the transaction inserted is discarded. When it does not, the id
  lookup resolved, every store operation of the row succeeded, and the fragments
  of the row are stored and reported.
\<close>

lemma scrape_item_error: "scrape_item e k item st = (st', k', Some err) \<Longrightarrow> db st' = db st"
  by (auto simp: scrape_item_def Let_def split: option.splits if_splits prod.splits bool.splits)

lemma scrape_item_None:
  assumes "scrape_item e k item st = (st', k', None)"
  shows "resolves e (urls (db st)) item
    \<and> k' = k + 5 + length (fragments_of e item)
    \<and> (\<forall>n. k \<le> n \<and> n < k' \<longrightarrow> sqlite3_works e n)
    \<and> results_text st' = results_text st @ item_entries e item
    \<and> appended e k k' (db st) (db st') (item_records e (urls (db st)) item)
    \<and> st' = st\<lparr>db := db st', results_text := results_text st'\<rparr>"
proof -
  let ?url = "convert_stringval e (fst item)"
  let ?fs = "fragments_of e item"
  from assms obtain key url_id d w k1 where h:
    "sqlite3_works e k" "sqlite3_works e (k + 1)" "bind_parameter ?url = Some key"
    "sqlite3_works e (k + 2)" "select_id (urls (db st)) key = Some url_id"
    "sqlite3_works e (k + 3)"
    "insert_results e (k + 4) url_id (py_str ?url) ?fs (db st, results_text st) =
       ((d, w), k1, True)"
    "sqlite3_works e k1" "st' = st\<lparr>db := d, results_text := w\<rparr>" "k' = k1 + 1"
    by (auto simp: scrape_item_def fragments_of_def Let_def
        split: option.splits if_splits prod.splits bool.splits)
  from insert_results_True [OF h(7)] have i:
    "k1 = k + 4 + length ?fs" "w = results_text st @ concat (map (result_entry (py_str ?url)) ?fs)"
    "\<forall>n. k + 4 \<le> n \<and> n < k1 \<longrightarrow> sqlite3_works e n"
    "appended e (k + 4) k1 (db st) d (map (Pair url_id) ?fs)"
    by blast+
  have works: "sqlite3_works e n" if "k \<le> n" "n < k'" for n
  proof -
    have "n = k \<or> n = k + 1 \<or> n = k + 2 \<or> n = k + 3 \<or> (k + 4 \<le> n \<and> n < k1) \<or> n = k1"
      using that h(10) by linarith
    then show ?thesis using h(1,2,4,6,8) i(3) by auto
  qed
  have "appended e k k' (db st) d (map (Pair url_id) ?fs)"
    using i(4) by (rule appended_widen) (simp_all add: h(10))
  moreover have "item_records e (urls (db st)) item = map (Pair url_id) ?fs"
    by (simp add: item_records_def h)
  moreover have "resolves e (urls (db st)) item" by (simp add: resolves_def h)
  ultimately show ?thesis
    using h(9,10) i(1,2) works by (simp add: item_entries_def)
qed

lemma scrape_item_completes:
  assumes w: "\<forall>n. sqlite3_works e n" and r: "resolves e (urls (db st)) item"
  shows "snd (snd (scrape_item e k item st)) = None"
proof -
  let ?url = "convert_stringval e (fst item)"
  obtain key url_id where k: "bind_parameter ?url = Some key"
    "select_id (urls (db st)) key = Some url_id"
    using r by (auto simp: resolves_def split: option.splits)
  have "snd (snd (insert_results e (k + 4) url_id (py_str ?url) (fragments_of e item)
          (db st, results_text st)))"
    using w by (intro insert_results_works) simp
  then obtain d x k1 where
    "insert_results e (k + 4) url_id (py_str ?url) (fragments_of e item)
       (db st, results_text st) = ((d, x), k1, True)"
    by (metis prod.collapse)
  then show ?thesis
    using w k by (simp add: scrape_item_def fragments_of_def Let_def)
qed

lemma scrape_item_frame:
  "urls (db (fst (scrape_item e k item st))) = urls (db st)
   \<and> url_list (fst (scrape_item e k item st)) = url_list st
   \<and> messagebox (fst (scrape_item e k item st)) = messagebox st"
proof -
  obtain st' k' err where s: "scrape_item e k item st = (st', k', err)"
    by (cases "scrape_item e k item st") auto
  show ?thesis
  proof (cases err)
    case None
    from scrape_item_None [OF s [unfolded None]] have
      a: "appended e k k' (db st) (db st') (item_records e (urls (db st)) item)"
      and f: "st' = st\<lparr>db := db st', results_text := results_text st'\<rparr>"
      by blast+
    have "url_list st' = url_list st \<and> messagebox st' = messagebox st"
      by (subst f, simp)+
    then show ?thesis using appended_urls [OF a] s by simp
  next
    case (Some x)
    have "url_list st' = url_list st \<and> messagebox st' = messagebox st"
      using s Some
      by (auto simp: scrape_item_def Let_def
          split: option.splits if_splits prod.splits bool.splits)
    then show ?thesis using scrape_item_error [OF s [unfolded Some]] s by simp
  qed
qed



text \<open>
  The outer loop. It never writes the \<^verbatim>\<open>urls\<close> table, the tree view or a
  dialog, and it only appends to \<^verbatim>\<open>results\<close>; a list of rows is processed by
  processing its first part and then, if no exception ended the thread, the rest
  from the state reached.
\<close>

lemma scrape_items_append:
  "scrape_items e k (xs @ ys) st =
     (case scrape_items e k xs st of
        (st', k', None) \<Rightarrow> scrape_items e k' ys st'
      | (st', k', Some err) \<Rightarrow> (st', k', Some err))"
  by (induction xs arbitrary: k st) (auto split: prod.splits option.splits)




lemma scrape_items_None:
  "scrape_items e k items st = (st', k', None) \<Longrightarrow>
   (\<forall>p \<in> set items. resolves e (urls (db st)) p)
   \<and> k + 5 * length items \<le> k'
   \<and> (\<forall>n. k \<le> n \<and> n < k' \<longrightarrow> sqlite3_works e n)
   \<and> results_text st' = results_text st @ run_entries e items
   \<and> appended e k k' (db st) (db st') (run_records e (urls (db st)) items)"
proof (induction items arbitrary: k st)
  case Nil
  then show ?case by (auto simp: run_entries_def run_records_def appended_refl)
next
  case (Cons item items)
  obtain st1 k1 err where s: "scrape_item e k item st = (st1, k1, err)"
    by (cases "scrape_item e k item st") auto
  have err: "err = None" using Cons.prems s by (cases err) auto
  then have rest: "scrape_items e k1 items st1 = (st', k', None)" using Cons.prems s by simp
  from scrape_item_None [OF s [unfolded err]] have a:
    "resolves e (urls (db st)) item" "k1 = k + 5 + length (fragments_of e item)"
    "\<forall>n. k \<le> n \<and> n < k1 \<longrightarrow> sqlite3_works e n"
    "results_text st1 = results_text st @ item_entries e item"
    "appended e k k1 (db st) (db st1) (item_records e (urls (db st)) item)"
    by blast+
  have u: "urls (db st1) = urls (db st)" using appended_urls [OF a(5)] .
  from Cons.IH [OF rest] have b:
    "\<forall>p \<in> set items. resolves e (urls (db st)) p" "k1 + 5 * length items \<le> k'"
    "\<forall>n. k1 \<le> n \<and> n < k' \<longrightarrow> sqlite3_works e n"
    "results_text st' = results_text st1 @ run_entries e items"
    "appended e k1 k' (db st1) (db st') (run_records e (urls (db st)) items)"
    unfolding u by blast+
  have "appended e k k' (db st) (db st')
          (item_records e (urls (db st)) item @ run_records e (urls (db st)) items)"
    using a(5) b(5) by (rule appended_trans) (use a(2) b(2) in simp_all)
  moreover have "\<forall>n. k \<le> n \<and> n < k' \<longrightarrow> sqlite3_works e n"
    using a(3) b(3) by (metis not_le_imp_less)
  ultimately show ?case
    using a(1,2,4) b(1,2,4) by (simp add: run_entries_def run_records_def)
qed

lemma scrape_items_completes:
  "\<forall>n. sqlite3_works e n \<Longrightarrow> \<forall>p \<in> set items. resolves e (urls (db st)) p \<Longrightarrow>
   snd (snd (scrape_items e k items st)) = None"
proof (induction items arbitrary: k st)
  case Nil
  show ?case by simp
next
  case (Cons item items)
  obtain st1 k1 err where s: "scrape_item e k item st = (st1, k1, err)"
    by (cases "scrape_item e k item st") auto
  have "err = None"
    using scrape_item_completes [of e st item k] Cons.prems s by simp
  moreover have "urls (db st1) = urls (db st)"
    using scrape_item_frame [of e k item st] s by simp
  ultimately show ?case using s Cons by simp
qed


section \<open>Runs\<close>

text \<open>
  The id lookup: \<^verbatim>\<open>fetchone()\<close> is \<^verbatim>\<open>None\<close> exactly when no row has the url, and
  otherwise the query gives the id of the first row that has it.
\<close>

lemma select_id_None: "select_id rows url = None \<longleftrightarrow> (\<forall>r \<in> set rows. urls_url r \<noteq> url)"
  by (auto simp: select_id_def find_None_iff)

lemma select_id_first:
  "select_id rows url = Some i \<longleftrightarrow>
     (\<exists>before r after. rows = before @ r # after \<and> (\<forall>q \<in> set before. urls_url q \<noteq> url)
        \<and> urls_url r = url \<and> urls_id r = i)"
proof (induction rows)
  case Nil
  show ?case by (simp add: select_id_def)
next
  case (Cons a rows)
  show ?case
  proof (cases "urls_url a = url")
    case True
    have "(\<exists>before r after. a # rows = before @ r # after
             \<and> (\<forall>q \<in> set before. urls_url q \<noteq> url) \<and> urls_url r = url \<and> urls_id r = i)
          \<longleftrightarrow> urls_id a = i"
    proof
      assume "\<exists>before r after. a # rows = before @ r # after
             \<and> (\<forall>q \<in> set before. urls_url q \<noteq> url) \<and> urls_url r = url \<and> urls_id r = i"
      then obtain before r after where
        h: "a # rows = before @ r # after" "\<forall>q \<in> set before. urls_url q \<noteq> url" "urls_id r = i"
        by blast
      show "urls_id a = i"
      proof (cases before)
        case Nil
        with h show ?thesis by simp
      next
        case (Cons b bs)
        with h True show ?thesis by simp
      qed
    next
      assume "urls_id a = i"
      then have "a # rows = [] @ a # rows \<and> (\<forall>q \<in> set []. urls_url q \<noteq> url)
                 \<and> urls_url a = url \<and> urls_id a = i"
        using True by simp
      then show "\<exists>before r after. a # rows = before @ r # after
             \<and> (\<forall>q \<in> set before. urls_url q \<noteq> url) \<and> urls_url r = url \<and> urls_id r = i"
        by blast
    qed
    then show ?thesis using True by (simp add: select_id_def)
  next
    case False
    have "(\<exists>before r after. a # rows = before @ r # after
             \<and> (\<forall>q \<in> set before. urls_url q \<noteq> url) \<and> urls_url r = url \<and> urls_id r = i)
          \<longleftrightarrow> (\<exists>before r after. rows = before @ r # after
             \<and> (\<forall>q \<in> set before. urls_url q \<noteq> url) \<and> urls_url r = url \<and> urls_id r = i)"
    proof
      assume "\<exists>before r after. a # rows = before @ r # after
             \<and> (\<forall>q \<in> set before. urls_url q \<noteq> url) \<and> urls_url r = url \<and> urls_id r = i"
      then obtain before r after where
        h: "a # rows = before @ r # after" "\<forall>q \<in> set before. urls_url q \<noteq> url"
           "urls_url r = url" "urls_id r = i"
        by blast
      show "\<exists>before r after. rows = before @ r # after
             \<and> (\<forall>q \<in> set before. urls_url q \<noteq> url) \<and> urls_url r = url \<and> urls_id r = i"
      proof (cases before)
        case Nil
        with h False show ?thesis by simp
      next
        case (Cons b bs)
        with h have "rows = bs @ r # after \<and> (\<forall>q \<in> set bs. urls_url q \<noteq> url)" by simp
        with h show ?thesis by blast
      qed
    next
      assume "\<exists>before r after. rows = before @ r # after
             \<and> (\<forall>q \<in> set before. urls_url q \<noteq> url) \<and> urls_url r = url \<and> urls_id r = i"
      then obtain before r after where
        h: "rows = before @ r # after" "\<forall>q \<in> set before. urls_url q \<noteq> url"
           "urls_url r = url" "urls_id r = i"
        by blast
      then have "a # rows = (a # before) @ r # after
                 \<and> (\<forall>q \<in> set (a # before). urls_url q \<noteq> url)"
        using False by simp
      with h show "\<exists>before r after. a # rows = before @ r # after
             \<and> (\<forall>q \<in> set before. urls_url q \<noteq> url) \<and> urls_url r = url \<and> urls_id r = i"
        by blast
    qed
    moreover have "select_id (a # rows) url = select_id rows url"
      using False by (simp add: select_id_def)
    ultimately show ?thesis using Cons.IH by simp
  qed
qed

lemma sorted_map_mono: "sorted_wrt (<) ns \<Longrightarrow> mono f \<Longrightarrow> sorted (map (f :: nat \<Rightarrow> nat) ns)"
  by (induction ns) (auto dest: monoD [of f] less_imp_le)

lemma run_records_fragments:
  "\<forall>p \<in> set items. resolves e rows p \<Longrightarrow>
   map snd (run_records e rows items) = concat (map (fragments_of e) items)"
  by (induction items)
     (auto simp: run_records_def item_records_def resolves_def comp_def split: option.splits)

lemma appended_rows:
  assumes "appended e k k' d d' ps"
  shows "\<exists>new. results d' = results d @ new
    \<and> map results_result new = map snd ps \<and> map results_url_id new = map fst ps
    \<and> sorted_wrt (<) (map results_id new)
    \<and> (mono (current_timestamp e) \<longrightarrow> sorted (map results_timestamp new))"
proof -
  from assms obtain new ns where h:
    "results d' = results d @ new"
    "map (\<lambda>r. (results_url_id r, results_result r)) new = ps"
    "map results_timestamp new = map (current_timestamp e) ns"
    "sorted_wrt (<) ns" "sorted_wrt (<) (map results_id new)"
    unfolding appended_def by blast
  have "map snd ps = map results_result new" "map fst ps = map results_url_id new"
    using h(2) by (auto simp: comp_def)
  moreover have "sorted (map results_timestamp new)" if "mono (current_timestamp e)"
    using h(3,4) that by (simp add: sorted_map_mono)
  ultimately show ?thesis using h(1,5) by auto
qed


lemma insert_results_False:
  "insert_results e k url_id url fs (d, w) = (x, k', False) \<Longrightarrow> \<exists>n. \<not> sqlite3_works e n"
  using insert_results_works [of k fs e url_id url d w] by auto



lemma scrape_items_resolved_error:
  "\<forall>p \<in> set items. resolves e (urls (db st)) p \<Longrightarrow>
   snd (snd (scrape_items e k items st)) \<noteq> None \<Longrightarrow>
   snd (snd (scrape_items e k items st)) = Some Sqlite3Error \<and> (\<exists>n. \<not> sqlite3_works e n)"
proof (induction items arbitrary: k st)
  case Nil
  then show ?case by simp
next
  case (Cons item items)
  obtain st1 k1 err where s: "scrape_item e k item st = (st1, k1, err)"
    by (cases "scrape_item e k item st") auto
  have r: "resolves e (urls (db st)) item" using Cons.prems by simp
  show ?case
  proof (cases err)
    case None
    have u: "urls (db st1) = urls (db st)" using scrape_item_frame [of e k item st] s by simp
    have rest: "scrape_items e k (item # items) st = scrape_items e k1 items st1"
      using s None by simp
    have 1: "\<forall>p \<in> set items. resolves e (urls (db st1)) p" using Cons.prems(1) u by simp
    have 2: "snd (snd (scrape_items e k1 items st1)) \<noteq> None"
      using Cons.prems(2) rest by simp
    from Cons.IH [OF 1 2] show ?thesis using rest by simp
  next
    case (Some x)
    have "x = Sqlite3Error \<and> (\<exists>n. \<not> sqlite3_works e n)"
      using s [unfolded Some] r
      by (auto simp: scrape_item_def resolves_def Let_def dest: insert_results_False
          split: option.splits if_splits prod.splits bool.splits)
    then show ?thesis using s Some by simp
  qed
qed

text \<open>
  In every state the application reaches from its start by registrations, the
  tree view lists exactly the rows of \<^verbatim>\<open>urls\<close>; so the id lookup resolves for
  every row of the tree view whose url the tree view returns as the string it
  is. When every lookup resolves, no run ends with \<^verbatim>\<open>TypeError\<close> or
  \<^verbatim>\<open>OverflowError\<close>.
\<close>

lemma reachable_registered:
  "\<forall>p \<in> set (url_list (foldl submit (init f) inputs)).
     \<exists>r \<in> set (urls (db (foldl submit (init f) inputs))). urls_url r = fst p"
proof -
  have "url_list (foldl submit (init f) inputs) =
        select_url_selector (db (foldl submit (init f) inputs))"
    by (simp add: submits_db submits_url_list init_db init_url_list)
  then show ?thesis by (auto simp: select_url_selector_def)
qed

lemma reachable_resolves:
  "p \<in> set (url_list (foldl submit (init f) inputs)) \<Longrightarrow> py_int e (fst p) = None \<Longrightarrow>
   resolves e (urls (db (foldl submit (init f) inputs))) p"
  using reachable_registered [of f inputs]
  by (auto simp: resolves_def convert_stringval_def bind_parameter_def select_id_None)

lemma scrape_thread_fst:
  "fst (scrape_thread e st) = fst (scrape_items e 0 (url_list st) (st\<lparr>results_text := []\<rparr>))"
  by (simp add: scrape_thread_def split: prod.splits)

lemma scrape_thread_snd:
  "snd (scrape_thread e st) = snd (snd (scrape_items e 0 (url_list st) (st\<lparr>results_text := []\<rparr>)))"
  by (simp add: scrape_thread_def split: prod.splits)

lemma lookup_resolved:
  "\<forall>p \<in> set (url_list st). resolves e (urls (db st)) p \<Longrightarrow>
   snd (scrape_thread e st) \<noteq> Some TypeError \<and> snd (scrape_thread e st) \<noteq> Some OverflowError"
  using scrape_items_resolved_error [of "url_list st" e "st\<lparr>results_text := []\<rparr>" 0]
  by (cases "snd (scrape_thread e st)") (auto simp: scrape_thread_snd)


text \<open>
  C9, as the code has it. \<^verbatim>\<open>start_scraping\<close> starts one thread, whatever the
  number of rows in the tree view. The thread processes the rows one after the
  other in the order of the tree view: the run over \<open>xs @ ys\<close> is the run over
  \<open>xs\<close> followed, when no exception ended the thread, by the run over \<open>ys\<close> from
  the state and the operation count reached. When no store operation fails and
  every id lookup resolves, the run appends the fragments to \<^verbatim>\<open>results\<close> and
  writes the entries to the results widget job by job in that order.
\<close>

theorem single_worker_sequential:
  "start_scraping e st = [scrape_thread e]
   \<and> scrape_thread e st =
       (case scrape_items e 0 (url_list st) (st\<lparr>results_text := []\<rparr>) of
          (st', k, err) \<Rightarrow> (st', err))
   \<and> scrape_items e k (xs @ ys) st' =
       (case scrape_items e k xs st' of
          (st'', k', None) \<Rightarrow> scrape_items e k' ys st''
        | (st'', k', Some err) \<Rightarrow> (st'', k', Some err))
   \<and> ((\<forall>n. sqlite3_works e n) \<and> (\<forall>p \<in> set (url_list st). resolves e (urls (db st)) p) \<longrightarrow>
        map results_result (drop (length (results (db st)))
           (results (db (joined (scrape_thread e) st)))) =
          concat (map (fragments_of e) (url_list st))
        \<and> results_text (joined (scrape_thread e) st) = run_entries e (url_list st))"
proof -
  let ?st = "st\<lparr>results_text := []\<rparr>"
  let ?items = "url_list st"
  have "map results_result (drop (length (results (db st)))
           (results (db (joined (scrape_thread e) st)))) =
          concat (map (fragments_of e) ?items)
        \<and> results_text (joined (scrape_thread e) st) = run_entries e ?items"
    if w: "\<forall>n. sqlite3_works e n" and r: "\<forall>p \<in> set ?items. resolves e (urls (db st)) p"
  proof -
    have "snd (snd (scrape_items e 0 ?items ?st)) = None"
      using w r by (intro scrape_items_completes) simp_all
    then obtain s1 k1 where s: "scrape_items e 0 ?items ?st = (s1, k1, None)"
      by (cases "scrape_items e 0 ?items ?st") auto
    from scrape_items_None [OF s] have
      t: "results_text s1 = run_entries e ?items"
      and a: "appended e 0 k1 (db st) (db s1) (run_records e (urls (db st)) ?items)"
      by simp_all
    from appended_rows [OF a] obtain new where
      "results (db s1) = results (db st) @ new"
      "map results_result new = map snd (run_records e (urls (db st)) ?items)"
      by blast
    then show ?thesis
      using s t r by (simp add: joined_def scrape_thread_fst run_records_fragments)
  qed
  then show ?thesis
    by (simp add: start_scraping_def scrape_thread_def scrape_items_append)
qed





theorem single_worker_sequential_witness:
  "start_scraping
     \<lparr>py_int = (\<lambda>s. None),
      requests_get = (\<lambda>u. Inr (py_str u)), soup_select = (\<lambda>m s. Inr [Tag m]),
      sqlite3_works = (\<lambda>n. True), current_timestamp = (\<lambda>n. 0)\<rparr>
     (foldl submit (init None) [(''http://a'', ''p''), (''http://b'', ''p'')]) =
   [scrape_thread
     \<lparr>py_int = (\<lambda>s. None),
      requests_get = (\<lambda>u. Inr (py_str u)), soup_select = (\<lambda>m s. Inr [Tag m]),
      sqlite3_works = (\<lambda>n. True), current_timestamp = (\<lambda>n. 0)\<rparr>]
   \<and> map results_result (results (db (joined (scrape_thread
     \<lparr>py_int = (\<lambda>s. None),
      requests_get = (\<lambda>u. Inr (py_str u)), soup_select = (\<lambda>m s. Inr [Tag m]),
      sqlite3_works = (\<lambda>n. True), current_timestamp = (\<lambda>n. 0)\<rparr>)
     (foldl submit (init None) [(''http://a'', ''p''), (''http://b'', ''p'')])))) =
     [''http://a'', ''http://b'']"
proof -
  let ?e = "\<lparr>py_int = (\<lambda>s. None),
      requests_get = (\<lambda>u. Inr (py_str u)), soup_select = (\<lambda>m s. Inr [Tag m]),
      sqlite3_works = (\<lambda>n. True), current_timestamp = (\<lambda>n. 0)\<rparr>"
  let ?st = "foldl submit (init None) [(''http://a'', ''p''), (''http://b'', ''p'')]"
  have items: "url_list ?st = [(''http://a'', ''p''), (''http://b'', ''p'')]"
    by (simp add: eval_defs)
  have old: "results (db ?st) = []" by (simp add: eval_defs)
  have reg: "\<forall>p \<in> set (url_list ?st). resolves ?e (urls (db ?st)) p"
    by (simp add: eval_defs)
  have up: "\<forall>n. sqlite3_works ?e n" by simp
  have "start_scraping ?e ?st = [scrape_thread ?e]
        \<and> map results_result (drop (length (results (db ?st)))
             (results (db (joined (scrape_thread ?e) ?st)))) =
           concat (map (fragments_of ?e) (url_list ?st))"
    using single_worker_sequential [where e = ?e and st = ?st and k = 0 and xs = "[]"
        and ys = "[]" and st' = ?st] reg up by blast
  then show ?thesis
    unfolding items old
    by (simp add: fragments_of_def convert_stringval_def scrape_url_def py_str_def
        strip_def isspace_def)
qed

text \<open>
  C9 as stated fails: for two registered jobs one thread is started, not two; and
  when the first connection cannot be opened, nothing is stored for the second
  job either, although every later store operation would succeed.
\<close>

theorem one_thread_for_two_jobs_counterexample:
  "length (start_scraping
     \<lparr>py_int = (\<lambda>s. None),
      requests_get = (\<lambda>u. Inr (py_str u)), soup_select = (\<lambda>m s. Inr [Tag m]),
      sqlite3_works = (\<lambda>n. 0 < n), current_timestamp = (\<lambda>n. 0)\<rparr>
     (foldl submit (init None) [(''http://a'', ''p''), (''http://b'', ''p'')])) = 1
   \<and> length (url_list (foldl submit (init None) [(''http://a'', ''p''), (''http://b'', ''p'')])) = 2
   \<and> results (db (joined (scrape_thread
     \<lparr>py_int = (\<lambda>s. None),
      requests_get = (\<lambda>u. Inr (py_str u)), soup_select = (\<lambda>m s. Inr [Tag m]),
      sqlite3_works = (\<lambda>n. 0 < n), current_timestamp = (\<lambda>n. 0)\<rparr>)
     (foldl submit (init None) [(''http://a'', ''p''), (''http://b'', ''p'')]))) = []"
  by (simp add: eval_defs)



text \<open>
  C2 fails on the code. Two jobs are registered with the same url and the
  selectors \<^verbatim>\<open>h1\<close> and \<^verbatim>\<open>h2\<close>; they get the ids 1 and 2. The fragment \<^verbatim>\<open>S\<close> is
  the extraction of job 2 (selector \<^verbatim>\<open>h2\<close>), and the run stores it with url_id 1:
  the lookup \<^verbatim>\<open>SELECT id FROM urls WHERE url=?\<close> finds job 1 for both.
\<close>

theorem duplicate_url_attribution:
  "map (\<lambda>r. (urls_id r, urls_url r, urls_selector r))
     (urls (db (foldl submit (init None) [(''http://a'', ''h1''), (''http://a'', ''h2'')]))) =
     [(1, ''http://a'', ''h1''), (2, ''http://a'', ''h2'')]
   \<and> scrape_url
     \<lparr>py_int = (\<lambda>s. None), requests_get = (\<lambda>u. Inr ''<h1>T</h1><h2>S</h2>''),
      soup_select = (\<lambda>m s. if s = PyStr ''h1'' then Inr [Tag ''T''] else Inr [Tag ''S'']),
      sqlite3_works = (\<lambda>n. True), current_timestamp = (\<lambda>n. 0)\<rparr>
     (PyStr ''http://a'') (PyStr ''h2'') = [''S'']
   \<and> map (\<lambda>r. (results_url_id r, results_result r))
     (results (db (joined (scrape_thread
        \<lparr>py_int = (\<lambda>s. None), requests_get = (\<lambda>u. Inr ''<h1>T</h1><h2>S</h2>''),
         soup_select = (\<lambda>m s. if s = PyStr ''h1'' then Inr [Tag ''T''] else Inr [Tag ''S'']),
         sqlite3_works = (\<lambda>n. True), current_timestamp = (\<lambda>n. 0)\<rparr>)
      (foldl submit (init None) [(''http://a'', ''h1''), (''http://a'', ''h2'')])))) =
     [(1, ''T''), (1, ''S'')]"
  by (simp add: eval_defs)

text \<open>
  A fetch or an extraction that raises gives the single fragment
  \<^verbatim>\<open>Error: <message>\<close>.
\<close>

lemma scrape_url_fetch_error:
  "requests_get e url = Inl msg \<Longrightarrow> scrape_url e url selector = [''Error: '' @ msg]"
  by (simp add: scrape_url_def)

lemma scrape_url_select_error:
  "requests_get e url = Inr markup \<Longrightarrow> soup_select e markup selector = Inl msg \<Longrightarrow>
   scrape_url e url selector = [''Error: '' @ msg]"
  by (simp add: scrape_url_def)

text \<open>
  C1 fails on the code in one point. The two jobs of C2 are run with a fetch that
  times out. The run completes, each job contributes the one fragment
  \<^verbatim>\<open>Error: timed out\<close> and one row of \<^verbatim>\<open>results\<close>; but the row of job 2 is
  stored with url_id 1, as a result of job 1.
\<close>

theorem error_fragment_attribution:
  "map (\<lambda>r. (urls_id r, urls_url r, urls_selector r))
     (urls (db (foldl submit (init None) [(''http://a'', ''h1''), (''http://a'', ''h2'')]))) =
     [(1, ''http://a'', ''h1''), (2, ''http://a'', ''h2'')]
   \<and> scrape_thread
        \<lparr>py_int = (\<lambda>s. None), requests_get = (\<lambda>u. Inl ''timed out''),
         soup_select = (\<lambda>m s. Inr []),
         sqlite3_works = (\<lambda>n. True), current_timestamp = (\<lambda>n. 0)\<rparr>
      (foldl submit (init None) [(''http://a'', ''h1''), (''http://a'', ''h2'')]) =
     ((foldl submit (init None) [(''http://a'', ''h1''), (''http://a'', ''h2'')])
        \<lparr>db := (db (foldl submit (init None) [(''http://a'', ''h1''), (''http://a'', ''h2'')]))
           \<lparr>results :=
              [\<lparr>results_id = 1, results_url_id = 1, results_result = ''Error: timed out'',
                results_timestamp = 0\<rparr>,
               \<lparr>results_id = 2, results_url_id = 1, results_result = ''Error: timed out'',
                results_timestamp = 0\<rparr>],
            results_seq := 2\<rparr>,
         results_text :=
           result_entry ''http://a'' ''Error: timed out'' @
           result_entry ''http://a'' ''Error: timed out''\<rparr>,
      None)"
  by (simp add: eval_defs)

text \<open>
  C10 fails on the code. The job with url \<^verbatim>\<open>007\<close> is registered: the tree view
  has its row and \<^verbatim>\<open>urls\<close> has the row with id 1 for it. The run reads the url
  back from the tree view as the integer 7, which the query compares as the text
  \<^verbatim>\<open>7\<close>; no row has that url, \<^verbatim>\<open>fetchone()\<close> is \<^verbatim>\<open>None\<close>, and indexing it
  ends the run with \<^verbatim>\<open>TypeError\<close>.
\<close>

theorem registered_url_lookup_fails:
  "url_list (foldl submit (init None) [(''007'', ''p'')]) = [(''007'', ''p'')]
   \<and> urls (db (foldl submit (init None) [(''007'', ''p'')])) =
       [\<lparr>urls_id = 1, urls_url = ''007'', urls_selector = ''p''\<rparr>]
   \<and> convert_stringval
        \<lparr>py_int = (\<lambda>s. if s = ''007'' then Some 7 else None),
         requests_get = (\<lambda>u. Inl ''Invalid URL''), soup_select = (\<lambda>m s. Inr []),
         sqlite3_works = (\<lambda>n. True), current_timestamp = (\<lambda>n. 0)\<rparr> ''007'' = PyInt 7
   \<and> bind_parameter (PyInt 7) = Some ''7''
   \<and> scrape_thread
        \<lparr>py_int = (\<lambda>s. if s = ''007'' then Some 7 else None),
         requests_get = (\<lambda>u. Inl ''Invalid URL''), soup_select = (\<lambda>m s. Inr []),
         sqlite3_works = (\<lambda>n. True), current_timestamp = (\<lambda>n. 0)\<rparr>
        (foldl submit (init None) [(''007'', ''p'')]) =
       (foldl submit (init None) [(''007'', ''p'')], Some TypeError)"
  by (simp add: eval_defs)

end
